theory Spec2Isabelle
  imports Main "HOL-Library.Word"
begin

unbundle bit_operations_syntax

section \<open>CoreLocalArray (util/core\_local.h)\<close>

text \<open>
  A shallow embedding of the class template \<open>CoreLocalArray<T>\<close>. The C++ integer types
  keep their widths: \<open>unsigned int\<close> and \<open>uint32_t\<close> are 32-bit words read with
  \<open>unat\<close>, \<open>int\<close> is a 32-bit word read with \<open>sint\<close>, \<open>size_t\<close> is a 64-bit word.
  A pointer \<open>T*\<close> is the byte address it holds, a natural number.
\<close>

type_synonym u32 = "32 word"
type_synonym i32 = "32 word"
type_synonym size_t = "64 word"
type_synonym addr = nat

text \<open>
  Every way in which a call can end without its value is a constructor of \<open>error\<close>:
  the two undefined operations of C++ arithmetic that the expressions of the header can
  reach (a shift count that is not less than the width of the shifted type, an \<open>int\<close>
  result that is not representable), the two exceptions of a \<open>new T[n]\<close> expression,
  and the abort of a failed \<open>assert\<close>.
\<close>

datatype error =
    ShiftCountOutOfRange
  | SignedOverflow
  | BadArrayNewLength
  | BadAlloc
  | AssertionFailed

subsection \<open>The arithmetic of the header's expressions\<close>

text \<open>
  \<open>1u << n\<close> with \<open>n\<close> of type \<open>size_t\<close>: the result has the type of the left operand,
  \<open>unsigned int\<close>; the behaviour is undefined when \<open>n\<close> is 32 or more.
\<close>

definition shl_u32 :: "u32 \<Rightarrow> size_t \<Rightarrow> error + u32" where
  "shl_u32 x n = (if 32 \<le> unat n then Inl ShiftCountOutOfRange else Inr (push_bit (unat n) x))"

text \<open>
  \<open>1 << n\<close> with \<open>n\<close> of type \<open>size_t\<close>: the left operand is the \<open>int\<close> 1, so is the
  result. The count must be below 32; at 31 the bit moves into the sign and the \<open>int\<close>
  read from the result is \<open>INT_MIN\<close>.
\<close>

definition shl_i32 :: "i32 \<Rightarrow> size_t \<Rightarrow> error + i32" where
  "shl_i32 x n = (if 32 \<le> unat n then Inl ShiftCountOutOfRange else Inr (push_bit (unat n) x))"

text \<open>\<open>x - y\<close> on \<open>int\<close>: undefined when the difference is not an \<open>int\<close>.\<close>

definition sub_i32 :: "i32 \<Rightarrow> i32 \<Rightarrow> error + i32" where
  "sub_i32 x y =
     (if sint x - sint y < - (2 ^ 31) \<or> 2 ^ 31 \<le> sint x - sint y
      then Inl SignedOverflow else Inr (x - y))"

subsection \<open>The object\<close>

text \<open>
  The two private members \<^verbatim>\<open>data_\<close> and \<^verbatim>\<open>size_shift_\<close>, named here without the
  trailing underscore (a name that ends in one is reserved in Isabelle): \<open>data\<close> is
  the address held by the \<open>unique_ptr<T[]>\<close>, \<open>size_shift\<close> the stored shift.
\<close>

record CoreLocalArray =
  data :: addr
  size_shift :: size_t

subsection \<open>Construction\<close>

text \<open>
  The loop of the constructor, from the value of \<open>size_shift\<close> on entry:
  \<^verbatim>\<open>while (1u << size_shift_ < num_cpus) { ++size_shift_; }\<close>
\<close>

function ctor_loop :: "u32 \<Rightarrow> size_t \<Rightarrow> error + size_t" where
  "ctor_loop num_cpus s =
     (case shl_u32 1 s of
        Inl e \<Rightarrow> Inl e
      | Inr p \<Rightarrow> if p < num_cpus then ctor_loop num_cpus (s + 1) else Inr s)"
  by pat_completeness auto
termination
proof (relation "measure (\<lambda>(num_cpus, s). 32 - unat s)")
  show "wf (measure (\<lambda>(num_cpus :: u32, s :: size_t). 32 - unat s))"
    by simp
next
  fix num_cpus :: u32 and s :: size_t and p :: u32
  assume "shl_u32 1 s = Inr p"
  then have lt: "unat s < 32"
    by (simp add: shl_u32_def split: if_splits)
  then have "unat (s + 1) = unat s + 1"
    by (simp add: unat_word_ariths)
  with lt show "((num_cpus, s + 1), (num_cpus, s)) \<in> measure (\<lambda>(num_cpus, s). 32 - unat s)"
    by simp
qed

declare ctor_loop.simps [simp del]

text \<open>
  The constructor. Its two inputs from outside the header are the value returned by
  \<open>std::thread::hardware_concurrency()\<close> and the allocator behind \<open>new T[n]\<close>: given the
  number of elements, \<open>new_T\<close> is the address of the fresh block, or \<open>None\<close> when the
  allocation throws \<open>std::bad_alloc\<close>. The length expression \<open>1 << size_shift\<close> is an
  \<open>int\<close>; a negative length makes the new-expression throw
  \<open>std::bad_array_new_length\<close> before any allocation.
\<close>

definition CoreLocalArray_ctor :: "(nat \<Rightarrow> addr option) \<Rightarrow> u32 \<Rightarrow> error + CoreLocalArray" where
  "CoreLocalArray_ctor new_T num_cpus =
     (case ctor_loop num_cpus 3 of
        Inl e \<Rightarrow> Inl e
      | Inr s \<Rightarrow>
          (case shl_i32 1 s of
             Inl e \<Rightarrow> Inl e
           | Inr len \<Rightarrow>
               if len <s 0 then Inl BadArrayNewLength
               else (case new_T (nat (sint len)) of
                       None \<Rightarrow> Inl BadAlloc
                     | Some p \<Rightarrow> Inr \<lparr>data = p, size_shift = s\<rparr>)))"

subsection \<open>The member functions\<close>

text \<open>\<open>Size()\<close>: the \<open>unsigned int\<close> value \<open>1u << size_shift\<close>, converted to \<open>size_t\<close>.\<close>

definition Size :: "CoreLocalArray \<Rightarrow> error + size_t" where
  "Size a = (case shl_u32 1 (size_shift a) of Inl e \<Rightarrow> Inl e | Inr n \<Rightarrow> Inr (ucast n))"

text \<open>
  \<^verbatim>\<open>&data_[core_idx]\<close>, with \<open>sizeof(T)\<close> as a parameter. The array that \<open>data\<close> points
  to has \<open>2 ^ size_shift\<close> elements, the length of the new-expression of the constructor,
  and element \<open>core_idx\<close> of it lies \<open>core_idx * sizeof(T)\<close> bytes after \<open>data\<close>. For an
  index that is not in the array the pointer arithmetic is undefined in C++; the compiled
  code adds \<open>core_idx * sizeof(T)\<close> to \<open>data\<close> in the 64-bit arithmetic of addresses,
  and that is the address given here.
\<close>

definition address_of :: "nat \<Rightarrow> CoreLocalArray \<Rightarrow> size_t \<Rightarrow> addr" where
  "address_of sizeof_T a core_idx =
     (if unat core_idx < 2 ^ unat (size_shift a) then data a + unat core_idx * sizeof_T
      else (data a + unat core_idx * sizeof_T) mod 2 ^ 64)"

text \<open>
  \<open>AccessAtCore(core_idx)\<close>. The first parameter says whether the translation unit is
  compiled with \<open>NDEBUG\<close>: without it the \<open>assert\<close> evaluates its condition (the
  \<open>unsigned int\<close> operand is converted to \<open>size_t\<close> for the comparison) and aborts when it
  is false; with it the \<open>assert\<close> is empty and only the return statement remains.
\<close>

definition AccessAtCore :: "bool \<Rightarrow> nat \<Rightarrow> CoreLocalArray \<Rightarrow> size_t \<Rightarrow> error + addr" where
  "AccessAtCore ndebug sizeof_T a core_idx =
     (if ndebug then Inr (address_of sizeof_T a core_idx)
      else (case shl_u32 1 (size_shift a) of
              Inl e \<Rightarrow> Inl e
            | Inr n \<Rightarrow>
                if core_idx < ucast n then Inr (address_of sizeof_T a core_idx)
                else Inl AssertionFailed))"

text \<open>
  \<open>AccessElementAndIndex()\<close>. \<open>cpuid\<close> is the \<open>int\<close> returned by
  \<open>port::PhysicalCoreID()\<close>; \<open>Uniform\<close> is the member function of the thread's
  \<open>Random\<close> instance, from its \<open>int\<close> argument to the \<open>uint32_t\<close> it returns.
  \<open>UNLIKELY\<close> is a branch-prediction hint and has the value of its argument. In the
  second branch \<open>cpuid\<close> is not negative, and neither is its conjunction with the mask;
  \<open>static_cast<size_t>\<close> of an \<open>int\<close> extends the sign.
\<close>

text \<open>The \<open>if\<close> statement of \<open>AccessElementAndIndex()\<close> that assigns \<open>core_idx\<close>:\<close>

definition core_idx_of :: "CoreLocalArray \<Rightarrow> i32 \<Rightarrow> (i32 \<Rightarrow> u32) \<Rightarrow> error + size_t" where
  "core_idx_of a cpuid Uniform =
     (if cpuid <s 0 then
        (case shl_i32 1 (size_shift a) of
           Inl e \<Rightarrow> Inl e
         | Inr n \<Rightarrow> Inr (ucast (Uniform n)))
      else
        (case shl_i32 1 (size_shift a) of
           Inl e \<Rightarrow> Inl e
         | Inr n \<Rightarrow>
             (case sub_i32 n 1 of
                Inl e \<Rightarrow> Inl e
              | Inr m \<Rightarrow> Inr (scast (cpuid AND m)))))"

definition AccessElementAndIndex ::
    "bool \<Rightarrow> nat \<Rightarrow> CoreLocalArray \<Rightarrow> i32 \<Rightarrow> (i32 \<Rightarrow> u32) \<Rightarrow> error + (addr \<times> size_t)" where
  "AccessElementAndIndex ndebug sizeof_T a cpuid Uniform =
     (case core_idx_of a cpuid Uniform of
        Inl e \<Rightarrow> Inl e
      | Inr core_idx \<Rightarrow>
          (case AccessAtCore ndebug sizeof_T a core_idx of
             Inl e \<Rightarrow> Inl e
           | Inr p \<Rightarrow> Inr (p, core_idx)))"

text \<open>\<open>Access()\<close>: the first component of \<open>AccessElementAndIndex()\<close>.\<close>

definition Access :: "bool \<Rightarrow> nat \<Rightarrow> CoreLocalArray \<Rightarrow> i32 \<Rightarrow> (i32 \<Rightarrow> u32) \<Rightarrow> error + addr" where
  "Access ndebug sizeof_T a cpuid Uniform =
     (case AccessElementAndIndex ndebug sizeof_T a cpuid Uniform of
        Inl e \<Rightarrow> Inl e
      | Inr r \<Rightarrow> Inr (fst r))"

subsection \<open>The member functions as state transformers\<close>

text \<open>
  What a call can read and write is more than the object. The state of the program, as
  far as the header touches it, has three parts: the members of the object the call is
  made on, the contents of the memory that the slots occupy, and the state of the calling
  thread's \<open>Random\<close> instance.
\<close>

record ('r, 'v) world =
  obj :: CoreLocalArray
  mem :: "addr \<Rightarrow> 'v option"
  rng :: 'r

text \<open>
  A statement takes the state and ends with an error, or with a value and the state it
  leaves. \<open>ret\<close> is a \<open>return\<close>, \<open>seq\<close> runs one statement after another, \<open>throw\<close>
  ends abnormally, \<open>expr\<close> evaluates an expression without side effects whose value may
  be undefined, and \<open>get_member\<close> reads a member of \<open>*this\<close>.
\<close>

type_synonym ('s, 'a) prog = "'s \<Rightarrow> error + 'a \<times> 's"

definition ret :: "'a \<Rightarrow> ('s, 'a) prog" where
  "ret x = (\<lambda>s. Inr (x, s))"

definition seq :: "('s, 'a) prog \<Rightarrow> ('a \<Rightarrow> ('s, 'b) prog) \<Rightarrow> ('s, 'b) prog" where
  "seq m f = (\<lambda>s. case m s of Inl e \<Rightarrow> Inl e | Inr xs \<Rightarrow> f (fst xs) (snd xs))"

definition throw :: "error \<Rightarrow> ('s, 'a) prog" where
  "throw e = (\<lambda>s. Inl e)"

definition expr :: "error + 'a \<Rightarrow> ('s, 'a) prog" where
  "expr r = (\<lambda>s. case r of Inl e \<Rightarrow> Inl e | Inr x \<Rightarrow> Inr (x, s))"

definition get_member :: "(CoreLocalArray \<Rightarrow> 'a) \<Rightarrow> (('r, 'v) world, 'a) prog" where
  "get_member f = (\<lambda>w. Inr (f (obj w), w))"

text \<open>
  \<^verbatim>\<open>Random::GetTLSInstance()->Uniform(n)\<close>: the call returns a value and advances the
  generator of the thread. \<open>Uniform\<close> gives both, from the state of the generator and the
  argument.
\<close>

definition Uniform_call :: "('r \<Rightarrow> i32 \<Rightarrow> u32 \<times> 'r) \<Rightarrow> i32 \<Rightarrow> (('r, 'v) world, u32) prog" where
  "Uniform_call Uniform n =
     (\<lambda>w. Inr (fst (Uniform (rng w) n), w\<lparr>rng := snd (Uniform (rng w) n)\<rparr>))"

text \<open>The bodies of the four member functions, statement by statement.\<close>

definition Size_st :: "(('r, 'v) world, size_t) prog" where
  "Size_st =
     seq (get_member size_shift) (\<lambda>s.
     seq (expr (shl_u32 1 s)) (\<lambda>n.
     ret (ucast n)))"

definition AccessAtCore_st :: "bool \<Rightarrow> nat \<Rightarrow> size_t \<Rightarrow> (('r, 'v) world, addr) prog" where
  "AccessAtCore_st ndebug sizeof_T core_idx =
     seq (if ndebug then ret ()
          else
            seq (get_member size_shift) (\<lambda>s.
            seq (expr (shl_u32 1 s)) (\<lambda>n.
            if core_idx < ucast n then ret () else throw AssertionFailed))) (\<lambda>_.
     seq (get_member (\<lambda>a. address_of sizeof_T a core_idx)) (\<lambda>p.
     ret p))"

definition AccessElementAndIndex_st ::
    "bool \<Rightarrow> nat \<Rightarrow> i32 \<Rightarrow> ('r \<Rightarrow> i32 \<Rightarrow> u32 \<times> 'r) \<Rightarrow> (('r, 'v) world, addr \<times> size_t) prog" where
  "AccessElementAndIndex_st ndebug sizeof_T cpuid Uniform =
     seq (if cpuid <s 0 then
            seq (get_member size_shift) (\<lambda>s.
            seq (expr (shl_i32 1 s)) (\<lambda>n.
            seq (Uniform_call Uniform n) (\<lambda>u.
            ret (ucast u))))
          else
            seq (get_member size_shift) (\<lambda>s.
            seq (expr (shl_i32 1 s)) (\<lambda>n.
            seq (expr (sub_i32 n 1)) (\<lambda>m.
            ret (scast (cpuid AND m)))))) (\<lambda>core_idx.
     seq (AccessAtCore_st ndebug sizeof_T core_idx) (\<lambda>p.
     ret (p, core_idx)))"

definition Access_st ::
    "bool \<Rightarrow> nat \<Rightarrow> i32 \<Rightarrow> ('r \<Rightarrow> i32 \<Rightarrow> u32 \<times> 'r) \<Rightarrow> (('r, 'v) world, addr) prog" where
  "Access_st ndebug sizeof_T cpuid Uniform =
     seq (AccessElementAndIndex_st ndebug sizeof_T cpuid Uniform) (\<lambda>r.
     ret (fst r))"

text \<open>
  A sequence of calls on one object, by one thread. A call of \<open>Access\<close> or of
  \<open>AccessElementAndIndex\<close> comes with the value that \<open>port::PhysicalCoreID()\<close> returns
  at that call. A call that aborts ends the sequence.
\<close>

datatype call =
    Call_Size
  | Call_Access i32
  | Call_AccessElementAndIndex i32
  | Call_AccessAtCore size_t

datatype retval =
    Ret_size size_t
  | Ret_ptr addr
  | Ret_pair "addr \<times> size_t"

fun invoke ::
    "bool \<Rightarrow> nat \<Rightarrow> ('r \<Rightarrow> i32 \<Rightarrow> u32 \<times> 'r) \<Rightarrow> call \<Rightarrow> (('r, 'v) world, retval) prog" where
  "invoke ndebug sizeof_T Uniform Call_Size =
     seq Size_st (\<lambda>n. ret (Ret_size n))"
| "invoke ndebug sizeof_T Uniform (Call_Access cpuid) =
     seq (Access_st ndebug sizeof_T cpuid Uniform) (\<lambda>p. ret (Ret_ptr p))"
| "invoke ndebug sizeof_T Uniform (Call_AccessElementAndIndex cpuid) =
     seq (AccessElementAndIndex_st ndebug sizeof_T cpuid Uniform) (\<lambda>r. ret (Ret_pair r))"
| "invoke ndebug sizeof_T Uniform (Call_AccessAtCore core_idx) =
     seq (AccessAtCore_st ndebug sizeof_T core_idx) (\<lambda>p. ret (Ret_ptr p))"

fun run ::
    "bool \<Rightarrow> nat \<Rightarrow> ('r \<Rightarrow> i32 \<Rightarrow> u32 \<times> 'r) \<Rightarrow> call list \<Rightarrow> (('r, 'v) world, retval list) prog" where
  "run ndebug sizeof_T Uniform [] = ret []"
| "run ndebug sizeof_T Uniform (c # cs) =
     seq (invoke ndebug sizeof_T Uniform c) (\<lambda>r.
     seq (run ndebug sizeof_T Uniform cs) (\<lambda>rs.
     ret (r # rs)))"

text \<open>
  A statement keeps the object when the state it leaves has the members of the object and
  the contents of the slots that it found.
\<close>

definition keeps_object :: "(('r, 'v) world, 'a) prog \<Rightarrow> bool" where
  "keeps_object m \<longleftrightarrow> (\<forall>w x w'. m w = Inr (x, w') \<longrightarrow> obj w' = obj w \<and> mem w' = mem w)"

subsection \<open>The thread's random source\<close>

text \<open>
  Modelled from the spec: \<open>Random::Uniform\<close> is declared in \<^verbatim>\<open>util/random.h\<close>, which is
  not among the sources. The specification requires of the per-thread random source that it
  returns values over \<open>[0, upperBound)\<close> for any upper bound requested; \<open>Uniform_spec\<close>
  is that requirement on the function passed to \<open>AccessElementAndIndex\<close>, for the
  positive bounds.
\<close>

definition Uniform_spec :: "(i32 \<Rightarrow> u32) \<Rightarrow> bool" where
  "Uniform_spec Uniform \<longleftrightarrow> (\<forall>n. 0 <s n \<longrightarrow> Uniform n < n)"

section \<open>Facts about words\<close>

lemma unat_two_pow: "n < LENGTH('a::len) \<Longrightarrow> unat ((2::'a word) ^ n) = 2 ^ n"
proof -
  assume n: "n < LENGTH('a)"
  have "unat (push_bit n (1::'a word)) = take_bit LENGTH('a) (push_bit n (1::nat))"
    by (simp only: unsigned_push_bit_eq unsigned_1)
  also have "\<dots> = 2 ^ n"
    using n by (simp only: push_bit_of_1 take_bit_nat_eq_self_iff power_strict_increasing_iff)
  finally show ?thesis
    by (simp only: push_bit_of_1)
qed

lemma uint_two_pow: "n < LENGTH('a::len) \<Longrightarrow> uint ((2::'a word) ^ n) = 2 ^ n"
  by (simp only: uint_nat unat_two_pow) simp

lemma sint_two_pow: "Suc n < LENGTH('a::len) \<Longrightarrow> sint ((2::'a word) ^ n) = 2 ^ n"
proof -
  assume n: "Suc n < LENGTH('a)"
  then have u: "uint ((2::'a word) ^ n) = 2 ^ n"
    by (simp add: uint_two_pow)
  have "(2::int) ^ n < 2 ^ (LENGTH('a) - Suc 0)"
    using n by simp
  moreover have "- (2 ^ (LENGTH('a) - Suc 0)) \<le> (2::int) ^ n"
    by (rule order_trans [of _ 0]) simp_all
  ultimately have "signed_take_bit (LENGTH('a) - Suc 0) ((2::int) ^ n) = 2 ^ n"
    by (rule signed_take_bit_int_eq_self [rotated])
  then show ?thesis
    by (simp only: sint_uint u)
qed

lemma sint_nonneg_uint:
  fixes w :: "'a::len word"
  assumes "0 \<le> sint w"
  shows "sint w = uint w"
proof -
  obtain m where L: "LENGTH('a) = Suc m"
    by (cases "LENGTH('a)") simp_all
  from assms have nb: "\<not> bit (uint w) m"
    by (simp add: sint_uint L)
  have "take_bit LENGTH('a) (uint w) = uint w"
    by (simp add: take_bit_int_eq_self_iff)
  then have "uint w = take_bit (Suc m) (uint w)"
    by (simp only: L)
  also have "\<dots> = take_bit m (uint w)"
    using nb by (simp add: take_bit_Suc_from_most)
  finally have "take_bit m (uint w) = uint w" by simp
  with nb show ?thesis
    by (simp add: sint_uint L signed_take_bit_eq_if_positive)
qed

lemma unat_ucast_up:
  fixes w :: "'a::len word"
  assumes "LENGTH('a) \<le> LENGTH('b::len)"
  shows "unat (ucast w :: 'b word) = unat w"
proof -
  have "unat w < 2 ^ LENGTH('a)"
    by (rule unsigned_less)
  also have "(2::nat) ^ LENGTH('a) \<le> 2 ^ LENGTH('b)"
    using assms by (simp only: power_increasing_iff one_less_numeral_iff semiring_norm)
  finally have "take_bit LENGTH('b) (unat w) = unat w"
    by (simp only: take_bit_nat_eq_self_iff)
  then show ?thesis
    by (simp only: unsigned_ucast_eq)
qed

lemma and_mask_nat: "unat ((w :: 'a::len word) AND mask n) = unat w mod 2 ^ n"
  by (metis take_bit_eq_mask take_bit_eq_mod unsigned_take_bit_eq)

lemma unat_scast_nonneg:
  fixes w :: "'a::len word"
  assumes "0 \<le> sint w" and "LENGTH('a) \<le> LENGTH('b::len)"
  shows "unat (scast w :: 'b word) = unat w"
proof -
  have "(scast w :: 'b word) = word_of_int (sint w)"
    by (rule scast_eq)
  also have "\<dots> = word_of_int (uint w)"
    by (simp only: sint_nonneg_uint [OF assms(1)])
  also have "\<dots> = ucast w"
    by (simp only: ucast_eq)
  finally show ?thesis
    using assms(2) by (simp only: unat_ucast_up)
qed

section \<open>The shifts and the loop of the constructor\<close>

lemma shl_u32_one: "shl_u32 1 s = Inr p \<longleftrightarrow> unat s < 32 \<and> p = 2 ^ unat s"
  by (auto simp: shl_u32_def)

lemma shl_i32_one: "shl_i32 1 s = Inr p \<longleftrightarrow> unat s < 32 \<and> p = 2 ^ unat s"
  by (auto simp: shl_i32_def)

lemma unat_two_pow32: "n < 32 \<Longrightarrow> unat ((2::32 word) ^ n) = 2 ^ n"
  by (rule unat_two_pow) simp

lemma unat_succ_shift: "unat (s :: size_t) < 32 \<Longrightarrow> unat (s + 1) = Suc (unat s)"
  by (simp add: unat_word_ariths)

text \<open>
  What the loop has established when it ends normally: the shift it returns is not below
  the one it started from and is a valid count, the power at it is not below \<open>num_cpus\<close>,
  and the power at every shift it passed is.
\<close>

lemma ctor_loop_sound:
  "ctor_loop n s = Inr r \<Longrightarrow>
     unat s \<le> unat r \<and> unat r < 32 \<and> unat n \<le> 2 ^ unat r \<and>
     (\<forall>k. unat s \<le> k \<and> k < unat r \<longrightarrow> 2 ^ k < unat n)"
proof (induction n s rule: ctor_loop.induct)
  case (1 n s)
  from "1.prems" obtain p where p: "shl_u32 1 s = Inr p"
    by (subst (asm) ctor_loop.simps) (auto split: sum.splits)
  then have lt: "unat s < 32" and pv: "unat p = 2 ^ unat s"
    by (simp_all add: shl_u32_one unat_two_pow32)
  show ?case
  proof (cases "p < n")
    case True
    with p "1.prems" have rec: "ctor_loop n (s + 1) = Inr r"
      by (subst (asm) ctor_loop.simps) simp
    from "1.IH" [OF p True rec] have ih:
      "unat (s + 1) \<le> unat r" "unat r < 32" "unat n \<le> 2 ^ unat r"
      "\<forall>k. unat (s + 1) \<le> k \<and> k < unat r \<longrightarrow> 2 ^ k < unat n"
      by simp_all
    have here: "2 ^ unat s < unat n"
      using True pv by (simp add: word_less_nat_alt)
    have "\<forall>k. unat s \<le> k \<and> k < unat r \<longrightarrow> 2 ^ k < unat n"
    proof (intro allI impI)
      fix k assume k: "unat s \<le> k \<and> k < unat r"
      show "2 ^ k < unat n"
      proof (cases "k = unat s")
        case True then show ?thesis using here by simp
      next
        case False
        with k have "unat (s + 1) \<le> k" by (simp add: unat_succ_shift lt)
        with k ih(4) show ?thesis by blast
      qed
    qed
    with ih lt show ?thesis by (simp add: unat_succ_shift)
  next
    case False
    with p "1.prems" have "r = s"
      by (subst (asm) ctor_loop.simps) simp
    moreover from False pv have "unat n \<le> 2 ^ unat s"
      by (simp add: word_less_nat_alt)
    ultimately show ?thesis using lt by simp
  qed
qed

section \<open>What the constructor returns\<close>

lemma sint_small_uint:
  fixes w :: "'a::len word"
  assumes "uint w < 2 ^ (LENGTH('a) - Suc 0)"
  shows "sint w = uint w"
proof -
  have "- (2 ^ (LENGTH('a) - Suc 0)) \<le> uint w"
    by (rule order_trans [of _ 0]) simp_all
  then have "signed_take_bit (LENGTH('a) - Suc 0) (uint w) = uint w"
    using assms by (rule signed_take_bit_int_eq_self)
  then show ?thesis
    by (simp only: sint_uint)
qed

lemma two_pow31_negative: "(2::32 word) ^ 31 <s 0"
  by (simp add: word_sless_alt)

lemma two_pow_not_negative: "n \<le> 30 \<Longrightarrow> \<not> (2::32 word) ^ n <s 0"
  by (simp add: word_sless_alt sint_two_pow)


lemma two_pow_positive: "n \<le> 30 \<Longrightarrow> 0 <s (2::32 word) ^ n"
  by (simp add: word_sless_alt sint_two_pow)

lemma Size_value:
  "unat (size_shift a) < 32 \<Longrightarrow> Size a = Inr (ucast ((2::32 word) ^ unat (size_shift a)))"
  by (simp add: Size_def shl_u32_def)

lemma unat_Size_value:
  "n < 32 \<Longrightarrow> unat (ucast ((2::32 word) ^ n) :: 64 word) = 2 ^ n"
  by (simp only: unat_ucast_up unat_two_pow32 len_num0 len_num1 len_bit0 mult_1_right) 

lemma ucast_two_pow: "n < 32 \<Longrightarrow> (ucast ((2::32 word) ^ n) :: 64 word) = 2 ^ n"
proof -
  assume n: "n < 32"
  then have "n < LENGTH(64)" by simp
  then have "unat ((2::64 word) ^ n) = 2 ^ n" by (rule unat_two_pow)
  with n have "unat (ucast ((2::32 word) ^ n) :: 64 word) = unat ((2::64 word) ^ n)"
    by (simp only: unat_Size_value)
  then show ?thesis by (simp only: word_unat_eq_iff)
qed


lemma ctor_Inr:
  assumes "CoreLocalArray_ctor new_T n = Inr a"
  shows "ctor_loop n 3 = Inr (size_shift a)"
    and "3 \<le> unat (size_shift a)"
    and "unat (size_shift a) \<le> 30"
    and "new_T (2 ^ unat (size_shift a)) = Some (data a)"
proof -
  from assms obtain s where s: "ctor_loop n 3 = Inr s"
    by (cases "ctor_loop n 3") (simp_all add: CoreLocalArray_ctor_def)
  from ctor_loop_sound [OF s] have lo: "3 \<le> unat s" and hi: "unat s < 32"
    by simp_all
  then have len: "shl_i32 1 s = Inr (2 ^ unat s)"
    by (simp add: shl_i32_one)
  from assms have nn: "\<not> (2::32 word) ^ unat s <s 0"
    by (simp add: CoreLocalArray_ctor_def s len split: if_splits)
  have "unat s \<noteq> 31"
    using nn two_pow31_negative by auto
  with hi have le: "unat s \<le> 30" by simp
  from assms obtain p where p: "new_T (nat (sint ((2::32 word) ^ unat s))) = Some p"
    and a: "a = \<lparr>data = p, size_shift = s\<rparr>"
    by (cases "new_T (nat (sint ((2::32 word) ^ unat s)))")
       (simp_all add: CoreLocalArray_ctor_def s len nn)
  from le have "nat (sint ((2::32 word) ^ unat s)) = 2 ^ unat s"
    by (simp add: sint_two_pow)
  with p a s lo le show "ctor_loop n 3 = Inr (size_shift a)"
    and "3 \<le> unat (size_shift a)"
    and "unat (size_shift a) \<le> 30"
    and "new_T (2 ^ unat (size_shift a)) = Some (data a)"
    by simp_all
qed


lemma shift_least:
  assumes "ctor_loop n 3 = Inr r" and "max (unat n) 8 \<le> 2 ^ k"
  shows "unat r \<le> k"
proof (rule ccontr)
  assume "\<not> unat r \<le> k"
  then have k: "k < unat r" by simp
  show False
  proof (cases "3 \<le> k")
    case True
    with k ctor_loop_sound [OF assms(1)] have "2 ^ k < unat n" by simp
    with assms(2) show False by simp
  next
    case False
    then have "k \<le> 2" by simp
    then have "(2::nat) ^ k \<le> 2 ^ 2"
      by (simp only: power_increasing_iff one_less_numeral_iff semiring_norm)
    with assms(2) show False by simp
  qed
qed

text \<open>
  Claim C1. When the constructor returns an object, its stored shift is the smallest
  \<open>k\<close> with \<open>2 ^ k \<ge> max num_cpus 8\<close>, where \<open>num_cpus\<close> is the value of
  \<open>hardware_concurrency()\<close>, and \<open>Size()\<close> returns two to the power of the stored shift:
  a power of two that is at least 8 and at least \<open>num_cpus\<close>.
\<close>

theorem size_shift_smallest:
  assumes "CoreLocalArray_ctor new_T num_cpus = Inr a"
  shows "max (unat num_cpus) 8 \<le> 2 ^ unat (size_shift a) \<and>
         (\<forall>k. max (unat num_cpus) 8 \<le> 2 ^ k \<longrightarrow> unat (size_shift a) \<le> k) \<and>
         (\<exists>sz. Size a = Inr sz \<and> unat sz = 2 ^ unat (size_shift a) \<and>
               8 \<le> unat sz \<and> unat num_cpus \<le> unat sz)"
proof -
  note c = ctor_Inr [OF assms]
  from ctor_loop_sound [OF c(1)] have ge: "unat num_cpus \<le> 2 ^ unat (size_shift a)"
    by simp
  have "(2::nat) ^ 3 \<le> 2 ^ unat (size_shift a)"
    using c(2) by (simp only: power_increasing_iff one_less_numeral_iff semiring_norm)
  then have ge8: "8 \<le> (2::nat) ^ unat (size_shift a)" by simp
  have lt: "unat (size_shift a) < 32" using c(3) by simp
  have sz: "Size a = Inr (ucast ((2::32 word) ^ unat (size_shift a)))"
    using lt by (rule Size_value)
  have u: "unat (ucast ((2::32 word) ^ unat (size_shift a)) :: size_t) = 2 ^ unat (size_shift a)"
    using lt by (rule unat_Size_value)
  have least: "\<forall>k. max (unat num_cpus) 8 \<le> 2 ^ k \<longrightarrow> unat (size_shift a) \<le> k"
    using shift_least [OF c(1)] by blast
  from ge ge8 have "max (unat num_cpus) 8 \<le> 2 ^ unat (size_shift a)" by simp
  moreover from sz u ge ge8 have "\<exists>sz. Size a = Inr sz \<and> unat sz = 2 ^ unat (size_shift a) \<and>
               8 \<le> unat sz \<and> unat num_cpus \<le> unat sz"
    by simp
  ultimately show ?thesis using least by blast
qed

text \<open>With 20 processors the shift is 5 and the size 32.\<close>

theorem size_shift_smallest_witness:
  "CoreLocalArray_ctor (\<lambda>n. Some 4096) 20 = Inr \<lparr>data = 4096, size_shift = 5\<rparr> \<and>
   Size \<lparr>data = 4096, size_shift = 5\<rparr> = Inr 32 \<and>
   max (unat (20::u32)) 8 \<le> 2 ^ 5 \<and> \<not> max (unat (20::u32)) 8 \<le> 2 ^ 4"
proof -
  have h: "CoreLocalArray_ctor (\<lambda>n. Some 4096) 20 = Inr \<lparr>data = 4096, size_shift = 5\<rparr>"
    by (simp add: CoreLocalArray_ctor_def ctor_loop.simps shl_u32_def shl_i32_def word_sless_alt)
  have sz: "Size \<lparr>data = 4096, size_shift = 5\<rparr> = Inr 32"
    by (simp add: Size_def shl_u32_def)
  from size_shift_smallest [OF h] h sz show ?thesis
    by simp
qed

text \<open>
  Claim C10. When \<open>hardware_concurrency()\<close> is 0 and the allocation of the eight
  elements succeeds, the constructor returns an object whose stored shift is 3, and
  \<open>Size()\<close> of it is 8.
\<close>

theorem zero_cpus_size_eight:
  "new_T 8 = Some p \<Longrightarrow>
     CoreLocalArray_ctor new_T 0 = Inr \<lparr>data = p, size_shift = 3\<rparr> \<and>
     Size \<lparr>data = p, size_shift = 3\<rparr> = Inr 8"
  by (simp add: CoreLocalArray_ctor_def ctor_loop.simps shl_u32_def shl_i32_def Size_def word_sless_alt)

theorem zero_cpus_size_eight_witness:
  "CoreLocalArray_ctor (\<lambda>n. if n = 8 then Some 4096 else None) 0
     = Inr \<lparr>data = 4096, size_shift = 3\<rparr> \<and>
   Size \<lparr>data = 4096, size_shift = 3\<rparr> = Inr 8"
  using zero_cpus_size_eight [of "\<lambda>n. if n = 8 then Some 4096 else None" 4096]
  by simp

text \<open>
  Up to \<open>2 ^ 31\<close> processors the loop returns a shift, and up to \<open>2 ^ 30\<close> the constructor
  returns an object unless the allocation fails.
\<close>

lemma ctor_loop_returns:
  "unat n \<le> 2 ^ 31 \<Longrightarrow> unat s \<le> 31 \<Longrightarrow> \<exists>r. ctor_loop n s = Inr r"
proof (induction n s rule: ctor_loop.induct)
  case (1 n s)
  from "1.prems"(2) have lt: "unat s < 32" by simp
  then have p: "shl_u32 1 s = Inr (2 ^ unat s)"
    by (simp add: shl_u32_one)
  show ?case
  proof (cases "(2::32 word) ^ unat s < n")
    case True
    then have "2 ^ unat s < unat n"
      using lt by (simp add: word_less_nat_alt unat_two_pow32)
    with "1.prems"(1) have "(2::nat) ^ unat s < 2 ^ 31" by linarith
    then have "unat s < 31"
      by (simp only: power_strict_increasing_iff one_less_numeral_iff semiring_norm)
    then have "unat (s + 1) \<le> 31"
      by (simp add: unat_succ_shift)
    from "1.IH" [OF p True "1.prems"(1) this] obtain r where "ctor_loop n (s + 1) = Inr r" ..
    with p True have "ctor_loop n s = Inr r"
      by (subst ctor_loop.simps) simp
    then show ?thesis ..
  next
    case False
    with p have "ctor_loop n s = Inr s"
      by (subst ctor_loop.simps) simp
    then show ?thesis ..
  qed
qed

lemma ctor_small_cpus:
  assumes "unat num_cpus \<le> 2 ^ 30"
  shows "(\<exists>a. CoreLocalArray_ctor new_T num_cpus = Inr a) \<or>
         CoreLocalArray_ctor new_T num_cpus = Inl BadAlloc"
proof -
  have "(2::nat) ^ 30 \<le> 2 ^ 31" by simp
  with assms have "unat num_cpus \<le> 2 ^ 31" by linarith
  moreover have "unat (3 :: size_t) \<le> 31" by simp
  ultimately obtain r where r: "ctor_loop num_cpus 3 = Inr r"
    using ctor_loop_returns by blast
  from assms have "max (unat num_cpus) 8 \<le> 2 ^ 30" by simp
  with r have le: "unat r \<le> 30" by (rule shift_least)
  then have len: "shl_i32 1 r = Inr (2 ^ unat r)"
    by (simp add: shl_i32_one)
  from le have nn: "\<not> (2::32 word) ^ unat r <s 0" by (rule two_pow_not_negative)
  show ?thesis
    by (cases "new_T (nat (sint ((2::32 word) ^ unat r)))")
       (simp_all add: CoreLocalArray_ctor_def r len nn)
qed

text \<open>
  Claim C6. The claim is that the constructor's loop ends for every value of
  \<open>hardware_concurrency()\<close> and that construction fails by exhaustion of memory only.
  At \<open>num_cpus = 2 ^ 31 + 1\<close> no \<open>unsigned int\<close> power of two is large enough: the loop
  passes the shift 31, since \<open>2 ^ 31 < num_cpus\<close>, and evaluates \<open>1u << 32\<close>, whose
  behaviour is undefined. The constructor ends there, whatever the allocator would do.
\<close>

theorem ctor_huge_cpus: "CoreLocalArray_ctor new_T 0x80000001 = Inl ShiftCountOutOfRange"
  by (simp add: CoreLocalArray_ctor_def ctor_loop.simps shl_u32_def)

section \<open>The index of the calling thread\<close>

lemma two_pow_le_int: "n \<le> 30 \<Longrightarrow> (2::int) ^ n \<le> 2 ^ 30"
  by (simp only: power_increasing_iff one_less_numeral_iff semiring_norm)

lemma two_pow_le_nat: "n \<le> 30 \<Longrightarrow> (2::nat) ^ n \<le> 2 ^ 30"
  by (simp only: power_increasing_iff one_less_numeral_iff semiring_norm)

lemma sub_i32_two_pow:
  assumes "n \<le> 30"
  shows "sub_i32 (2 ^ n) 1 = Inr (mask n)"
proof -
  from assms have s: "sint ((2::32 word) ^ n) = 2 ^ n"
    by (simp add: sint_two_pow)
  from two_pow_le_int [OF assms] have "(2::int) ^ n - 1 < 2 ^ 31" by simp
  moreover have "- (2 ^ 31) \<le> (2::int) ^ n - 1"
    by (rule order_trans [of _ 0]) simp_all
  ultimately show ?thesis
    by (simp add: sub_i32_def s mask_eq_decr_exp)
qed

lemma unat_masked_index:
  fixes c :: "32 word"
  assumes "n \<le> 30"
  shows "unat (scast (c AND mask n) :: 64 word) = unat c mod 2 ^ n"
proof -
  have m: "unat (c AND mask n) = unat c mod 2 ^ n"
    by (rule and_mask_nat)
  have b: "(2::nat) ^ 30 < 2 ^ 31" by simp
  have "unat c mod 2 ^ n < 2 ^ n" by simp
  with two_pow_le_nat [OF assms] m b have "unat (c AND mask n) < 2 ^ 31" by linarith
  then have "int (unat (c AND mask n)) < int (2 ^ 31)"
    by (simp only: of_nat_less_iff)
  then have "uint (c AND mask n) < 2 ^ 31"
    by (simp only: uint_nat of_nat_power of_nat_numeral)
  then have "sint (c AND mask n) = uint (c AND mask n)"
    by (intro sint_small_uint) simp
  then have "0 \<le> sint (c AND mask n)" by simp
  then have "unat (scast (c AND mask n) :: 64 word) = unat (c AND mask n)"
    by (rule unat_scast_nonneg) simp
  with m show ?thesis by simp
qed

lemma core_idx_of_nonneg:
  assumes "unat (size_shift a) \<le> 30" and "\<not> cpuid <s 0"
  shows "core_idx_of a cpuid U = Inr (scast (cpuid AND mask (unat (size_shift a))))"
  using assms by (simp add: core_idx_of_def shl_i32_def sub_i32_two_pow)

lemma core_idx_of_neg:
  assumes "unat (size_shift a) \<le> 30" and "cpuid <s 0"
  shows "core_idx_of a cpuid U = Inr (ucast (U (2 ^ unat (size_shift a))))"
  using assms by (simp add: core_idx_of_def shl_i32_def)

lemma AccessAtCore_in_range:
  assumes "unat (size_shift a) < 32" and "unat idx < 2 ^ unat (size_shift a)"
  shows "AccessAtCore nd sz a idx = Inr (data a + unat idx * sz)"
  using assms
  by (simp add: AccessAtCore_def address_of_def shl_u32_def word_less_nat_alt unat_Size_value)

lemma AccessAtCore_past_end:
  assumes "unat (size_shift a) < 32" and "2 ^ unat (size_shift a) \<le> unat idx"
  shows "AccessAtCore False sz a idx = Inl AssertionFailed"
  using assms by (simp add: AccessAtCore_def shl_u32_def word_less_nat_alt unat_Size_value)

lemma Size_ctor:
  assumes "CoreLocalArray_ctor new_T num_cpus = Inr a"
  shows "Size a = Inr (2 ^ unat (size_shift a))"
    and "unat ((2::size_t) ^ unat (size_shift a)) = 2 ^ unat (size_shift a)"
proof -
  from ctor_Inr(3) [OF assms] have lt: "unat (size_shift a) < 32" by simp
  then show "Size a = Inr (2 ^ unat (size_shift a))"
    by (simp add: Size_value ucast_two_pow)
  from lt show "unat ((2::size_t) ^ unat (size_shift a)) = 2 ^ unat (size_shift a)"
    by (simp add: unat_two_pow)
qed

lemma nonneg_unat_sint:
  fixes c :: "32 word"
  assumes "\<not> c <s 0"
  shows "nat (sint c) = unat c" and "0 \<le> sint c"
proof -
  from assms show nn: "0 \<le> sint c" by (simp add: word_sless_alt)
  then have "sint c = uint c" by (rule sint_nonneg_uint)
  then show "nat (sint c) = unat c" by simp
qed

lemma masked_index_word:
  fixes c :: "32 word"
  assumes "n \<le> 30" and "\<not> c <s 0"
  shows "(scast (c AND mask n) :: 64 word) = scast c AND (2 ^ n - 1)"
proof -
  have "unat (scast c AND mask n :: 64 word) = unat (scast c :: 64 word) mod 2 ^ n"
    by (rule and_mask_nat)
  also have "unat (scast c :: 64 word) = unat c"
    using nonneg_unat_sint(2) [OF assms(2)] by (rule unat_scast_nonneg) simp
  finally have "unat (scast c AND mask n :: 64 word) = unat (scast (c AND mask n) :: 64 word)"
    using assms(1) by (simp only: unat_masked_index)
  then have "(scast c AND mask n :: 64 word) = scast (c AND mask n)"
    by (simp only: word_unat_eq_iff)
  then show ?thesis by (simp only: mask_eq_decr_exp)
qed


lemma AccessElementAndIndex_nonneg:
  assumes "CoreLocalArray_ctor new_T num_cpus = Inr a" and "\<not> cpuid <s 0"
  shows "AccessElementAndIndex nd sz a cpuid U =
           Inr (data a + (unat cpuid mod 2 ^ unat (size_shift a)) * sz,
                scast (cpuid AND mask (unat (size_shift a))))"
    and "AccessAtCore nd sz a (scast (cpuid AND mask (unat (size_shift a)))) =
           Inr (data a + (unat cpuid mod 2 ^ unat (size_shift a)) * sz)"
proof -
  note c = ctor_Inr [OF assms(1)]
  let ?k = "unat (size_shift a)"
  let ?idx = "scast (cpuid AND mask ?k) :: size_t"
  have u: "unat ?idx = unat cpuid mod 2 ^ ?k"
    using c(3) by (rule unat_masked_index)
  have lt: "?k < 32" using c(3) by simp
  have "unat ?idx < 2 ^ ?k" by (simp only: u) simp
  with lt have "AccessAtCore nd sz a ?idx = Inr (data a + unat ?idx * sz)"
    by (rule AccessAtCore_in_range)
  then show at: "AccessAtCore nd sz a ?idx = Inr (data a + (unat cpuid mod 2 ^ ?k) * sz)"
    by (simp only: u)
  show "AccessElementAndIndex nd sz a cpuid U =
           Inr (data a + (unat cpuid mod 2 ^ ?k) * sz, ?idx)"
    by (simp add: AccessElementAndIndex_def core_idx_of_nonneg [OF c(3) assms(2)] at)
qed

text \<open>
  Claim C2. On a constructed object, when the core id \<open>cpuid\<close> is not negative,
  \<open>AccessElementAndIndex()\<close> returns the index \<open>cpuid & (Size() - 1)\<close> together with
  the pointer that \<open>AccessAtCore\<close> returns for that index, and \<open>Access()\<close> returns
  that pointer.
\<close>

theorem AccessElementAndIndex_masks_core_id:
  assumes "CoreLocalArray_ctor new_T num_cpus = Inr a"
    and "Size a = Inr n"
    and "\<not> cpuid <s 0"
  shows "\<exists>p. AccessElementAndIndex ndebug sizeof_T a cpuid Uniform = Inr (p, scast cpuid AND (n - 1)) \<and>
             AccessAtCore ndebug sizeof_T a (scast cpuid AND (n - 1)) = Inr p \<and>
             Access ndebug sizeof_T a cpuid Uniform = Inr p"
proof -
  note c = ctor_Inr [OF assms(1)]
  from assms(2) Size_ctor(1) [OF assms(1)] have n: "n = 2 ^ unat (size_shift a)"
    by simp
  have idx: "(scast (cpuid AND mask (unat (size_shift a))) :: size_t) = scast cpuid AND (n - 1)"
    unfolding n using c(3) assms(3) by (rule masked_index_word)
  note r = AccessElementAndIndex_nonneg [OF assms(1) assms(3), of ndebug sizeof_T]
  from r(1) [of Uniform] r(2) show ?thesis
    by (simp add: Access_def idx)
qed

text \<open>
  On the 32 slots built for 20 processors, each 64 bytes, from address 4096: core 45 has
  the index 13 and the slot at 4096 + 13 * 64.
\<close>

theorem AccessElementAndIndex_masks_core_id_witness:
  "AccessElementAndIndex False 64 \<lparr>data = 4096, size_shift = 5\<rparr> 45 (\<lambda>n. 0) = Inr (4928, 13) \<and>
   AccessAtCore False 64 \<lparr>data = 4096, size_shift = 5\<rparr> 13 = Inr 4928 \<and>
   Access False 64 \<lparr>data = 4096, size_shift = 5\<rparr> 45 (\<lambda>n. 0) = Inr 4928"
proof -
  have h: "CoreLocalArray_ctor (\<lambda>n. Some 4096) 20 = Inr \<lparr>data = 4096, size_shift = 5\<rparr>"
    by (simp add: CoreLocalArray_ctor_def ctor_loop.simps shl_u32_def shl_i32_def word_sless_alt)
  have sz: "Size \<lparr>data = 4096, size_shift = 5\<rparr> = Inr 32"
    by (simp add: Size_def shl_u32_def)
  have nn: "\<not> (45 :: i32) <s 0"
    by (simp add: word_sless_alt)
  have i: "(scast (45 :: i32) :: size_t) AND (32 - 1) = 13"
    by simp
  from AccessElementAndIndex_masks_core_id [OF h sz nn, of False 64 "\<lambda>n. 0"]
  obtain p where p: "AccessElementAndIndex False 64 \<lparr>data = 4096, size_shift = 5\<rparr> 45 (\<lambda>n. 0) = Inr (p, 13)"
    "AccessAtCore False 64 \<lparr>data = 4096, size_shift = 5\<rparr> 13 = Inr p"
    "Access False 64 \<lparr>data = 4096, size_shift = 5\<rparr> 45 (\<lambda>n. 0) = Inr p"
    by (auto simp only: i)
  from p(2) have "p = 4928"
    by (simp add: AccessAtCore_def address_of_def shl_u32_def)
  with p show ?thesis by simp
qed

text \<open>
  Claim C5. For a core id \<open>c\<close>, a non-negative \<open>int\<close>, the index \<open>c & (Size() - 1)\<close> that
  \<open>AccessElementAndIndex()\<close> returns is \<open>c mod Size()\<close>.
\<close>

theorem masking_is_mod:
  assumes "CoreLocalArray_ctor new_T num_cpus = Inr a"
    and "Size a = Inr n"
    and "\<not> cpuid <s 0"
  shows "\<exists>p idx. AccessElementAndIndex ndebug sizeof_T a cpuid Uniform = Inr (p, idx) \<and>
                 idx = scast cpuid AND (n - 1) \<and>
                 int (unat idx) = sint cpuid mod int (unat n)"
proof -
  note c = ctor_Inr [OF assms(1)]
  let ?k = "unat (size_shift a)"
  from assms(2) Size_ctor(1) [OF assms(1)] have n: "n = 2 ^ ?k"
    by simp
  have un: "unat n = 2 ^ ?k"
    by (simp only: n Size_ctor(2) [OF assms(1)])
  have idx: "(scast (cpuid AND mask ?k) :: size_t) = scast cpuid AND (n - 1)"
    unfolding n using c(3) assms(3) by (rule masked_index_word)
  have u: "unat (scast (cpuid AND mask ?k) :: size_t) = unat cpuid mod 2 ^ ?k"
    using c(3) by (rule unat_masked_index)
  have sc: "sint cpuid = uint cpuid"
    using nonneg_unat_sint(2) [OF assms(3)] by (rule sint_nonneg_uint)
  have "int (unat (scast (cpuid AND mask ?k) :: size_t)) = sint cpuid mod int (unat n)"
    by (simp only: u un sc uint_nat zmod_int)
  with AccessElementAndIndex_nonneg(1) [OF assms(1) assms(3), of ndebug sizeof_T Uniform] idx
  show ?thesis by simp
qed

text \<open>
  The example of the specification: with \<open>Size() = 8\<close> the core 13 has the index 5.
\<close>

theorem masking_is_mod_witness:
  "AccessElementAndIndex False 64 \<lparr>data = 4096, size_shift = 3\<rparr> 13 (\<lambda>n. 0) = Inr (4416, 5) \<and>
   (5 :: size_t) = scast (13 :: i32) AND (8 - 1) \<and>
   int (unat (5 :: size_t)) = sint (13 :: i32) mod int (unat (8 :: size_t))"
proof -
  have h: "CoreLocalArray_ctor (\<lambda>n. Some 4096) 8 = Inr \<lparr>data = 4096, size_shift = 3\<rparr>"
    by (simp add: CoreLocalArray_ctor_def ctor_loop.simps shl_u32_def shl_i32_def word_sless_alt)
  have sz: "Size \<lparr>data = 4096, size_shift = 3\<rparr> = Inr 8"
    by (simp add: Size_def shl_u32_def)
  have nn: "\<not> (13 :: i32) <s 0"
    by (simp add: word_sless_alt)
  have e: "AccessElementAndIndex False 64 \<lparr>data = 4096, size_shift = 3\<rparr> 13 (\<lambda>n. 0) = Inr (4416, 5)"
    by (simp add: AccessElementAndIndex_def core_idx_of_def AccessAtCore_def address_of_def
        shl_u32_def shl_i32_def sub_i32_def word_sless_alt)
  from masking_is_mod [OF h sz nn, of False 64 "\<lambda>n. 0"] e show ?thesis
    by simp
qed

lemma Uniform_index:
  assumes "unat (size_shift a) \<le> 30" and "Uniform_spec U"
  shows "unat (ucast (U (2 ^ unat (size_shift a))) :: size_t) < 2 ^ unat (size_shift a)"
proof -
  let ?k = "unat (size_shift a)"
  from assms(1) have "0 <s (2::32 word) ^ ?k" by (rule two_pow_positive)
  with assms(2) have "U (2 ^ ?k) < 2 ^ ?k"
    by (simp add: Uniform_spec_def)
  then have "unat (U (2 ^ ?k)) < unat ((2::32 word) ^ ?k)"
    by (simp only: word_less_nat_alt)
  moreover from assms(1) have "unat ((2::32 word) ^ ?k) = 2 ^ ?k"
    by (intro unat_two_pow32) simp
  moreover have "unat (ucast (U (2 ^ ?k)) :: size_t) = unat (U (2 ^ ?k))"
    by (rule unat_ucast_up) simp
  ultimately show ?thesis by simp
qed

lemma AccessElementAndIndex_neg:
  assumes "CoreLocalArray_ctor new_T num_cpus = Inr a" and "cpuid <s 0" and "Uniform_spec U"
  shows "AccessElementAndIndex nd sz a cpuid U =
           Inr (data a + unat (U (2 ^ unat (size_shift a))) * sz,
                ucast (U (2 ^ unat (size_shift a))))"
    and "AccessAtCore nd sz a (ucast (U (2 ^ unat (size_shift a)))) =
           Inr (data a + unat (U (2 ^ unat (size_shift a))) * sz)"
proof -
  note c = ctor_Inr [OF assms(1)]
  let ?k = "unat (size_shift a)"
  let ?idx = "ucast (U (2 ^ ?k)) :: size_t"
  have u: "unat ?idx = unat (U (2 ^ ?k))"
    by (rule unat_ucast_up) simp
  have lt: "?k < 32" using c(3) by simp
  have "unat ?idx < 2 ^ ?k" using c(3) assms(3) by (rule Uniform_index)
  with lt have "AccessAtCore nd sz a ?idx = Inr (data a + unat ?idx * sz)"
    by (rule AccessAtCore_in_range)
  then show at: "AccessAtCore nd sz a ?idx = Inr (data a + unat (U (2 ^ ?k)) * sz)"
    by (simp only: u)
  show "AccessElementAndIndex nd sz a cpuid U = Inr (data a + unat (U (2 ^ ?k)) * sz, ?idx)"
    by (simp add: AccessElementAndIndex_def core_idx_of_neg [OF c(3) assms(2)] at)
qed

text \<open>
  Claim C3. On a constructed object, with a random source that keeps the bound required
  of it, \<open>AccessElementAndIndex()\<close> and \<open>Access()\<close> return a value for every \<open>cpuid\<close>,
  negative or not. The index is below \<open>Size()\<close>, so that the assertion of
  \<open>AccessAtCore\<close> holds, and when \<open>cpuid\<close> is negative the index is what the random
  source returns when asked for a value below \<open>Size()\<close>.
\<close>

theorem Access_always_succeeds:
  assumes "CoreLocalArray_ctor new_T num_cpus = Inr a" and "Uniform_spec Uniform"
  shows "\<exists>p idx n. AccessElementAndIndex ndebug sizeof_T a cpuid Uniform = Inr (p, idx) \<and>
                   Access ndebug sizeof_T a cpuid Uniform = Inr p \<and>
                   Size a = Inr n \<and> idx < n \<and>
                   AccessAtCore ndebug sizeof_T a idx = Inr p \<and>
                   (cpuid <s 0 \<longrightarrow> (\<exists>bound. ucast bound = n \<and> idx = ucast (Uniform bound)))"
proof -
  note c = ctor_Inr [OF assms(1)]
  let ?k = "unat (size_shift a)"
  have sz: "Size a = Inr (2 ^ ?k)" and un: "unat ((2::size_t) ^ ?k) = 2 ^ ?k"
    by (rule Size_ctor [OF assms(1)])+
  have lt: "?k < 32" using c(3) by simp
  show ?thesis
  proof (cases "cpuid <s 0")
    case True
    let ?idx = "ucast (Uniform (2 ^ ?k)) :: size_t"
    note r = AccessElementAndIndex_neg [OF assms(1) True assms(2), of ndebug sizeof_T]
    have "unat ?idx < 2 ^ ?k" using c(3) assms(2) by (rule Uniform_index)
    then have b: "?idx < 2 ^ ?k"
      by (simp only: word_less_nat_alt un)
    have "(ucast ((2::32 word) ^ ?k) :: size_t) = 2 ^ ?k"
      using lt by (rule ucast_two_pow)
    then have "\<exists>bound :: i32. ucast bound = (2::size_t) ^ ?k \<and> ?idx = ucast (Uniform bound)"
      by blast
    with r sz b show ?thesis
      by (simp add: Access_def)
  next
    case False
    let ?idx = "scast (cpuid AND mask ?k) :: size_t"
    note r = AccessElementAndIndex_nonneg [OF assms(1) False, of ndebug sizeof_T]
    have "unat ?idx = unat cpuid mod 2 ^ ?k"
      using c(3) by (rule unat_masked_index)
    then have "unat ?idx < 2 ^ ?k" by simp
    then have b: "?idx < 2 ^ ?k"
      by (simp only: word_less_nat_alt un)
    from r(1) [of Uniform] r(2) sz b False show ?thesis
      by (simp add: Access_def)
  qed
qed

lemma Uniform_spec_mod: "Uniform_spec (\<lambda>n. r mod n)"
proof -
  have "r mod n < n" if "0 <s n" for n :: "32 word"
  proof -
    from that have "n \<noteq> 0" by auto
    then have "0 < n" by (simp add: word_neq_0_conv)
    then show ?thesis by (rule word_mod_less_divisor)
  qed
  then show ?thesis by (simp add: Uniform_spec_def)
qed

text \<open>
  With eight slots, no core id, and a random source that reduces the draw 12345 modulo
  the bound, the index is 1.
\<close>

theorem Access_always_succeeds_witness:
  "Uniform_spec (\<lambda>n. 12345 mod n) \<and>
   AccessElementAndIndex False 64 \<lparr>data = 4096, size_shift = 3\<rparr> (- 1) (\<lambda>n. 12345 mod n)
     = Inr (4160, 1) \<and>
   Access False 64 \<lparr>data = 4096, size_shift = 3\<rparr> (- 1) (\<lambda>n. 12345 mod n) = Inr 4160 \<and>
   Size \<lparr>data = 4096, size_shift = 3\<rparr> = Inr 8 \<and>
   AccessAtCore False 64 \<lparr>data = 4096, size_shift = 3\<rparr> 1 = Inr 4160"
proof -
  have h: "CoreLocalArray_ctor (\<lambda>n. Some 4096) 8 = Inr \<lparr>data = 4096, size_shift = 3\<rparr>"
    by (simp add: CoreLocalArray_ctor_def ctor_loop.simps shl_u32_def shl_i32_def word_sless_alt)
  have u: "Uniform_spec (\<lambda>n. 12345 mod n)"
    by (rule Uniform_spec_mod)
  have e: "AccessElementAndIndex False 64 \<lparr>data = 4096, size_shift = 3\<rparr> (- 1) (\<lambda>n. 12345 mod n)
     = Inr (4160, 1)"
    by (simp add: AccessElementAndIndex_def core_idx_of_def AccessAtCore_def address_of_def
        shl_u32_def shl_i32_def word_sless_alt)
  have sz: "Size \<lparr>data = 4096, size_shift = 3\<rparr> = Inr 8"
    by (simp add: Size_def shl_u32_def)
  from Access_always_succeeds [OF h u, of False 64 "- 1"] e u sz show ?thesis
    by auto
qed

section \<open>The slots and the object across calls\<close>

text \<open>
  Claim C4, in a build with assertions (\<open>NDEBUG\<close> not defined). On a constructed object,
  \<open>AccessAtCore\<close> with an index that is not below \<open>Size()\<close> fails its assertion and
  returns no pointer.
\<close>

theorem AccessAtCore_assert_fails:
  assumes "CoreLocalArray_ctor new_T num_cpus = Inr a"
    and "Size a = Inr n"
    and "n \<le> core_idx"
  shows "AccessAtCore False sizeof_T a core_idx = Inl AssertionFailed \<and>
         (\<forall>p. AccessAtCore False sizeof_T a core_idx \<noteq> Inr p)"
proof -
  note c = ctor_Inr [OF assms(1)]
  let ?k = "unat (size_shift a)"
  from assms(2) Size_ctor(1) [OF assms(1)] have n: "n = 2 ^ ?k"
    by simp
  have un: "unat n = 2 ^ ?k"
    by (simp only: n Size_ctor(2) [OF assms(1)])
  from assms(3) have ge: "2 ^ ?k \<le> unat core_idx"
    by (simp only: word_le_nat_alt un)
  have lt: "?k < 32" using c(3) by simp
  have "AccessAtCore False sizeof_T a core_idx = Inl AssertionFailed"
    using lt ge by (rule AccessAtCore_past_end)
  then show ?thesis by simp
qed

text \<open>
  With eight slots of 64 bytes from address 4096: the index 8, and the index \<open>2 ^ 58 + 1\<close>.
\<close>

theorem AccessAtCore_assert_fails_witness:
  "AccessAtCore False 64 \<lparr>data = 4096, size_shift = 3\<rparr> 8 = Inl AssertionFailed \<and>
   AccessAtCore False 64 \<lparr>data = 4096, size_shift = 3\<rparr> 0x400000000000001 = Inl AssertionFailed"
proof -
  have h: "CoreLocalArray_ctor (\<lambda>n. Some 4096) 8 = Inr \<lparr>data = 4096, size_shift = 3\<rparr>"
    by (simp add: CoreLocalArray_ctor_def ctor_loop.simps shl_u32_def shl_i32_def word_sless_alt)
  have sz: "Size \<lparr>data = 4096, size_shift = 3\<rparr> = Inr 8"
    by (simp add: Size_def shl_u32_def)
  have le: "(8 :: size_t) \<le> 8" and le': "(8 :: size_t) \<le> 0x400000000000001"
    by simp_all
  from AccessAtCore_assert_fails [OF h sz le, of 64]
       AccessAtCore_assert_fails [OF h sz le', of 64]
  show ?thesis by simp
qed

text \<open>
  Claim C4 does not hold of a build with \<open>NDEBUG\<close>, where the assertion is compiled out.
  On eight slots of 64 bytes from address 4096 the index \<open>2 ^ 58 + 1\<close> is not below
  \<open>Size()\<close>; \<open>(2 ^ 58 + 1) * 64\<close> is \<open>2 ^ 64 + 64\<close>, and the call returns 4160 with no
  failure, which is the address of slot 1.
\<close>

theorem AccessAtCore_ndebug_returns_slot:
  "CoreLocalArray_ctor (\<lambda>n. Some 4096) 8 = Inr \<lparr>data = 4096, size_shift = 3\<rparr> \<and>
   Size \<lparr>data = 4096, size_shift = 3\<rparr> = Inr 8 \<and>
   (8 :: size_t) \<le> 0x400000000000001 \<and>
   AccessAtCore True 64 \<lparr>data = 4096, size_shift = 3\<rparr> 0x400000000000001 = Inr 4160 \<and>
   AccessAtCore True 64 \<lparr>data = 4096, size_shift = 3\<rparr> 1 = Inr 4160"
  by (simp add: CoreLocalArray_ctor_def ctor_loop.simps shl_u32_def shl_i32_def word_sless_alt
      Size_def AccessAtCore_def address_of_def)

text \<open>
  Claim C7. On a constructed object, for two different indices below \<open>Size()\<close>,
  \<open>AccessAtCore\<close> returns two different addresses; the two elements, of \<open>sizeof(T)\<close>
  bytes each, do not overlap, and both lie inside the block of \<open>Size()\<close> elements that
  starts at \<open>data\<close>. The size of a C++ object type is at least 1.
\<close>

theorem AccessAtCore_injective:
  assumes "CoreLocalArray_ctor new_T num_cpus = Inr a"
    and "Size a = Inr n"
    and "i < n" and "j < n" and "i \<noteq> j"
    and "0 < sizeof_T"
  shows "\<exists>p q. AccessAtCore ndebug sizeof_T a i = Inr p \<and>
               AccessAtCore ndebug sizeof_T a j = Inr q \<and>
               p \<noteq> q \<and> (p + sizeof_T \<le> q \<or> q + sizeof_T \<le> p) \<and>
               data a \<le> p \<and> p + sizeof_T \<le> data a + unat n * sizeof_T \<and>
               data a \<le> q \<and> q + sizeof_T \<le> data a + unat n * sizeof_T"
proof -
  note c = ctor_Inr [OF assms(1)]
  let ?k = "unat (size_shift a)"
  from assms(2) Size_ctor(1) [OF assms(1)] have n: "n = 2 ^ ?k"
    by simp
  have un: "unat n = 2 ^ ?k"
    by (simp only: n Size_ctor(2) [OF assms(1)])
  have lt: "?k < 32" using c(3) by simp
  from assms(3) have i: "unat i < unat n" by (simp only: word_less_nat_alt)
  from assms(4) have j: "unat j < unat n" by (simp only: word_less_nat_alt)
  from assms(5) have ne: "unat i \<noteq> unat j" by (simp only: word_unat_eq_iff not_False_eq_True)
  have pi: "AccessAtCore ndebug sizeof_T a i = Inr (data a + unat i * sizeof_T)"
    using lt i unfolding un by (rule AccessAtCore_in_range)
  have pj: "AccessAtCore ndebug sizeof_T a j = Inr (data a + unat j * sizeof_T)"
    using lt j unfolding un by (rule AccessAtCore_in_range)
  have step: "x * sizeof_T + sizeof_T \<le> y * sizeof_T" if "x < y" for x y :: nat
  proof -
    from that have "Suc x \<le> y" by simp
    then have "Suc x * sizeof_T \<le> y * sizeof_T" by (rule mult_le_mono1)
    then show ?thesis by simp
  qed
  have ei: "unat i * sizeof_T + sizeof_T \<le> unat n * sizeof_T" using i by (rule step)
  have ej: "unat j * sizeof_T + sizeof_T \<le> unat n * sizeof_T" using j by (rule step)
  have sep: "unat i * sizeof_T + sizeof_T \<le> unat j * sizeof_T \<or>
             unat j * sizeof_T + sizeof_T \<le> unat i * sizeof_T"
  proof (cases "unat i < unat j")
    case True
    then show ?thesis using step by blast
  next
    case False
    with ne have "unat j < unat i" by simp
    then show ?thesis using step by blast
  qed
  have neq: "unat i * sizeof_T \<noteq> unat j * sizeof_T"
    using sep assms(6) by auto
  from pi pj sep neq ei ej show ?thesis
    by auto
qed

text \<open>
  The slots 2 and 3 of eight slots of 64 bytes from address 4096.
\<close>

theorem AccessAtCore_injective_witness:
  "AccessAtCore False 64 \<lparr>data = 4096, size_shift = 3\<rparr> 2 = Inr 4224 \<and>
   AccessAtCore False 64 \<lparr>data = 4096, size_shift = 3\<rparr> 3 = Inr 4288 \<and>
   (4224 :: nat) \<noteq> 4288 \<and> (4224 :: nat) + 64 \<le> 4288 \<and>
   4288 + 64 \<le> data \<lparr>data = 4096, size_shift = 3\<rparr> + unat (8 :: size_t) * 64"
proof -
  have h: "CoreLocalArray_ctor (\<lambda>n. Some 4096) 8 = Inr \<lparr>data = 4096, size_shift = 3\<rparr>"
    by (simp add: CoreLocalArray_ctor_def ctor_loop.simps shl_u32_def shl_i32_def word_sless_alt)
  have sz: "Size \<lparr>data = 4096, size_shift = 3\<rparr> = Inr 8"
    by (simp add: Size_def shl_u32_def)
  have i: "(2 :: size_t) < 8" and j: "(3 :: size_t) < 8" and ne: "(2 :: size_t) \<noteq> 3"
    and s: "(0 :: nat) < 64"
    by simp_all
  have p: "AccessAtCore False 64 \<lparr>data = 4096, size_shift = 3\<rparr> 2 = Inr 4224"
    and q: "AccessAtCore False 64 \<lparr>data = 4096, size_shift = 3\<rparr> 3 = Inr 4288"
    by (simp_all add: AccessAtCore_def address_of_def shl_u32_def)
  from AccessAtCore_injective [OF h sz i j ne s, of False] p q show ?thesis
    by simp
qed

text \<open>
  Claim C8. On a constructed object, two calls of \<open>AccessElementAndIndex()\<close>, or of
  \<open>Access()\<close>, made with the same non-negative core id return the same pointer and the same
  index, whatever the state of the random source at either call.
\<close>

theorem Access_deterministic:
  assumes "CoreLocalArray_ctor new_T num_cpus = Inr a"
    and "\<not> cpuid <s 0"
  shows "\<exists>p idx. AccessElementAndIndex ndebug sizeof_T a cpuid Uniform1 = Inr (p, idx) \<and>
                 AccessElementAndIndex ndebug sizeof_T a cpuid Uniform2 = Inr (p, idx) \<and>
                 Access ndebug sizeof_T a cpuid Uniform1 = Inr p \<and>
                 Access ndebug sizeof_T a cpuid Uniform2 = Inr p"
proof -
  note r = AccessElementAndIndex_nonneg(1) [OF assms, of ndebug sizeof_T]
  from r [of Uniform1] r [of Uniform2] show ?thesis
    by (simp add: Access_def)
qed

text \<open>
  Core 13 on eight slots, with two random sources that would give different indices.
\<close>

theorem Access_deterministic_witness:
  "AccessElementAndIndex False 64 \<lparr>data = 4096, size_shift = 3\<rparr> 13 (\<lambda>n. 1) = Inr (4416, 5) \<and>
   AccessElementAndIndex False 64 \<lparr>data = 4096, size_shift = 3\<rparr> 13 (\<lambda>n. 6) = Inr (4416, 5) \<and>
   Access False 64 \<lparr>data = 4096, size_shift = 3\<rparr> 13 (\<lambda>n. 1) = Inr 4416 \<and>
   Access False 64 \<lparr>data = 4096, size_shift = 3\<rparr> 13 (\<lambda>n. 6) = Inr 4416"
proof -
  have h: "CoreLocalArray_ctor (\<lambda>n. Some 4096) 8 = Inr \<lparr>data = 4096, size_shift = 3\<rparr>"
    by (simp add: CoreLocalArray_ctor_def ctor_loop.simps shl_u32_def shl_i32_def word_sless_alt)
  have nn: "\<not> (13 :: i32) <s 0"
    by (simp add: word_sless_alt)
  have e: "AccessElementAndIndex False 64 \<lparr>data = 4096, size_shift = 3\<rparr> 13 (\<lambda>n. 1) = Inr (4416, 5)"
    by (simp add: AccessElementAndIndex_def core_idx_of_def AccessAtCore_def address_of_def
        shl_u32_def shl_i32_def sub_i32_def word_sless_alt)
  from Access_deterministic [OF h nn, of False 64 "\<lambda>n. 1" "\<lambda>n. 6"] e show ?thesis
    by auto
qed

text \<open>
  Each kind of statement keeps the members of the object and the contents of the slots;
  the call of \<open>Uniform\<close> changes the state of the generator only.
\<close>

lemma keeps_ret: "keeps_object (ret x)"
  by (simp add: keeps_object_def ret_def)

lemma keeps_throw: "keeps_object (throw e)"
  by (simp add: keeps_object_def throw_def)

lemma keeps_expr: "keeps_object (expr r)"
  by (cases r) (simp_all add: keeps_object_def expr_def)

lemma keeps_get_member: "keeps_object (get_member f)"
  by (auto simp: keeps_object_def get_member_def)

lemma keeps_Uniform_call: "keeps_object (Uniform_call Uniform n)"
  by (auto simp: keeps_object_def Uniform_call_def)

lemma keeps_seq:
  assumes "keeps_object m" and "\<And>x. keeps_object (f x)"
  shows "keeps_object (seq m f)"
proof (unfold keeps_object_def, intro allI impI)
  fix w y w''
  assume run: "seq m f w = Inr (y, w'')"
  then obtain x w' where m: "m w = Inr (x, w')" and f: "f x w' = Inr (y, w'')"
    by (cases "m w") (auto simp: seq_def)
  from assms(1) m have "obj w' = obj w \<and> mem w' = mem w"
    by (simp add: keeps_object_def)
  moreover from assms(2) [of x] f have "obj w'' = obj w' \<and> mem w'' = mem w'"
    by (simp add: keeps_object_def)
  ultimately show "obj w'' = obj w \<and> mem w'' = mem w" by simp
qed

lemma keeps_if: "keeps_object m \<Longrightarrow> keeps_object m' \<Longrightarrow> keeps_object (if c then m else m')"
  by simp

lemmas keeps_intros =
  keeps_seq keeps_if keeps_ret keeps_throw keeps_expr keeps_get_member keeps_Uniform_call

text \<open>
  So does the body of each member function, and so do a call and a sequence of calls.
\<close>

lemma keeps_Size_st: "keeps_object Size_st"
  unfolding Size_st_def by (intro keeps_intros)

lemma keeps_AccessAtCore_st: "keeps_object (AccessAtCore_st ndebug sizeof_T core_idx)"
  unfolding AccessAtCore_st_def by (intro keeps_intros)

lemma keeps_AccessElementAndIndex_st:
  "keeps_object (AccessElementAndIndex_st ndebug sizeof_T cpuid Uniform)"
  unfolding AccessElementAndIndex_st_def by (intro keeps_intros keeps_AccessAtCore_st)

lemma keeps_Access_st: "keeps_object (Access_st ndebug sizeof_T cpuid Uniform)"
  unfolding Access_st_def by (intro keeps_intros keeps_AccessElementAndIndex_st)

lemma keeps_invoke: "keeps_object (invoke ndebug sizeof_T Uniform c)"
  by (cases c)
     (simp_all add: keeps_seq keeps_ret keeps_Size_st keeps_Access_st
        keeps_AccessElementAndIndex_st keeps_AccessAtCore_st)

lemma keeps_run: "keeps_object (run ndebug sizeof_T Uniform cs)"
  by (induction cs) (simp_all add: keeps_seq keeps_ret keeps_invoke)

text \<open>
  The state transformers return what the functions of the object return. For
  \<open>AccessElementAndIndex\<close> and \<open>Access\<close> the random source of the function is the
  generator in the state it has at the call.
\<close>

lemma Size_st_Size:
  "Size_st w = (case Size (obj w) of Inl e \<Rightarrow> Inl e | Inr n \<Rightarrow> Inr (n, w))"
  by (simp add: Size_st_def Size_def seq_def get_member_def expr_def ret_def split: sum.splits)

lemma AccessAtCore_st_AccessAtCore:
  "AccessAtCore_st ndebug sizeof_T core_idx w =
     (case AccessAtCore ndebug sizeof_T (obj w) core_idx of
        Inl e \<Rightarrow> Inl e | Inr p \<Rightarrow> Inr (p, w))"
  by (simp add: AccessAtCore_st_def AccessAtCore_def seq_def get_member_def expr_def ret_def
      throw_def split: sum.splits)

lemma AccessElementAndIndex_st_AccessElementAndIndex:
  "(case AccessElementAndIndex_st ndebug sizeof_T cpuid Uniform w of
      Inl e \<Rightarrow> Inl e | Inr rw \<Rightarrow> Inr (fst rw)) =
   AccessElementAndIndex ndebug sizeof_T (obj w) cpuid (\<lambda>n. fst (Uniform (rng w) n))"
  by (simp add: AccessElementAndIndex_st_def AccessElementAndIndex_def core_idx_of_def
      AccessAtCore_st_AccessAtCore seq_def get_member_def expr_def ret_def Uniform_call_def
      split: sum.splits)

lemma Access_st_Access:
  "(case Access_st ndebug sizeof_T cpuid Uniform w of
      Inl e \<Rightarrow> Inl e | Inr rw \<Rightarrow> Inr (fst rw)) =
   Access ndebug sizeof_T (obj w) cpuid (\<lambda>n. fst (Uniform (rng w) n))"
  unfolding Access_def
  by (simp add: AccessElementAndIndex_st_AccessElementAndIndex [symmetric] Access_st_def seq_def
      ret_def split: sum.splits)

text \<open>
  Claim C9. After any sequence of calls of \<open>Size\<close>, \<open>Access\<close>,
  \<open>AccessElementAndIndex\<close> and \<open>AccessAtCore\<close> on an object, the address of its block
  and its stored shift are what they were before the first call, and so are the contents
  of the slots: the calls write neither. What a call can change is the state of the
  thread's random generator.
\<close>

theorem run_frame:
  fixes w w' :: "('r, 'v) world"
  assumes "run ndebug sizeof_T Uniform cs w = Inr (rs, w')"
  shows "data (obj w') = data (obj w) \<and> size_shift (obj w') = size_shift (obj w) \<and>
         mem w' = mem w"
proof -
  note r = assms
  have "keeps_object (run ndebug sizeof_T Uniform cs :: (('r, 'v) world, retval list) prog)"
    by (rule keeps_run)
  with r have "obj w' = obj w \<and> mem w' = mem w"
    unfolding keeps_object_def by blast
  then show ?thesis by simp
qed

text \<open>
  One call of each member function on eight slots of 64 bytes from address 4096; the last
  call has no core id and advances the generator.
\<close>

theorem run_frame_witness:
  "run False 64 (\<lambda>r n. (of_nat r mod n, Suc r))
     [Call_Size, Call_AccessAtCore 2, Call_Access 13, Call_AccessElementAndIndex (- 1)]
     \<lparr>obj = \<lparr>data = 4096, size_shift = 3\<rparr>, mem = (\<lambda>p. None :: nat option), rng = 12345\<rparr>
   = Inr ([Ret_size 8, Ret_ptr 4224, Ret_ptr 4416, Ret_pair (4160, 1)],
          \<lparr>obj = \<lparr>data = 4096, size_shift = 3\<rparr>, mem = (\<lambda>p. None), rng = 12346\<rparr>) \<and>
   data (obj \<lparr>obj = \<lparr>data = 4096, size_shift = 3\<rparr>, mem = (\<lambda>p. None :: nat option),
               rng = 12346 :: nat\<rparr>) = 4096 \<and>
   size_shift (obj \<lparr>obj = \<lparr>data = 4096, size_shift = 3\<rparr>, mem = (\<lambda>p. None :: nat option),
               rng = 12346 :: nat\<rparr>) = 3"
proof -
  have r: "run False 64 (\<lambda>r n. (of_nat r mod n, Suc r))
     [Call_Size, Call_AccessAtCore 2, Call_Access 13, Call_AccessElementAndIndex (- 1)]
     \<lparr>obj = \<lparr>data = 4096, size_shift = 3\<rparr>, mem = (\<lambda>p. None :: nat option), rng = 12345\<rparr>
   = Inr ([Ret_size 8, Ret_ptr 4224, Ret_ptr 4416, Ret_pair (4160, 1)],
          \<lparr>obj = \<lparr>data = 4096, size_shift = 3\<rparr>, mem = (\<lambda>p. None), rng = 12346\<rparr>)"
    by (simp add: Size_st_def Access_st_def AccessElementAndIndex_st_def AccessAtCore_st_def
        seq_def ret_def throw_def expr_def get_member_def Uniform_call_def address_of_def
        shl_u32_def shl_i32_def sub_i32_def word_sless_alt)
  from run_frame [OF r] r show ?thesis
    by simp
qed

end
